theory Spec2Isabelle
  imports Main
begin

section \<open>The shim stack orchestrator (main/shim/stack.cc)\<close>

text \<open>
  The theory embeds \<^verbatim>\<open>bluetooth::shim::Stack\<close>: the functions \<^verbatim>\<open>StartIdleMode\<close>,
  \<^verbatim>\<open>StartEverything\<close>, \<^verbatim>\<open>Start\<close>, \<^verbatim>\<open>Stop\<close>, \<^verbatim>\<open>IsRunning\<close> and the four accessors.
  The object's fields are a record that every function takes and returns. A failed
  \<^verbatim>\<open>ASSERT\<close> aborts the process, so the lifecycle functions return a sum whose left side
  is the fatal condition. The record carries a log, in program order, of the steps
  the lifecycle functions take: the assertions they evaluate, the objects they create
  and delete, their calls into the registry, the handler, the thread and the HCI
  shim, and their writes of the running flag. On an abort the log written so far is
  what is left of the run.
\<close>

subsection \<open>Modules, flags, collaborators\<close>

text \<open>The module types that \<^verbatim>\<open>StartIdleMode\<close> and \<^verbatim>\<open>StartEverything\<close> add to a module list.\<close>

datatype module =
  HciHal | HciLayer | StorageModule | Dumpsys
  | Controller | AclManager | SecurityModule
  | AttModule | LeAdvertisingManager | LeScanningManager
  | L2capClassicModule | L2capLeModule
  | ConnectabilityModule | DiscoverabilityModule | InquiryModule
  | NameModule | NameDbModule | PageModule | ScanModule
  | L2cap

text \<open>
  \<^verbatim>\<open>common::InitFlags\<close> is declared outside the file; the five flags the file reads are
  taken as a parameter, each an independent boolean.
\<close>

record InitFlags =
  GdHciEnabled :: bool
  GdControllerEnabled :: bool
  GdAclEnabled :: bool
  GdSecurityEnabled :: bool
  GdCoreEnabled :: bool

text \<open>
  A module is an opaque collaborator: all the orchestrator sees of it is the identities
  it depends on and whether its start hook succeeds. Both are parameters.
\<close>

record collaborators =
  dependencies :: "module \<Rightarrow> module list"
  onStart :: "module \<Rightarrow> bool"

subsection \<open>Objects the stack owns\<close>

datatype priority = REAL_TIME | NORMAL

datatype thread = Thread string priority

datatype handler = Handler thread

text \<open>A pointer is an option: \<open>None\<close> is \<^verbatim>\<open>nullptr\<close>.\<close>

datatype legacy_acl = Acl "handler option"

datatype shim_btm = Btm "handler option" "module option"

datatype assertion = Stack_not_running | Stack_running | Has_instance module

datatype fatal =
  AssertionFailed assertion
  | UnsatisfiedDependency
  | CyclicDependency
  | ModuleStartFailed module
  | NullDereference

datatype event =
  Asserted assertion
  | ThreadCreate
  | RegistryStartUp "module list"
  | ModuleStart module
  | HandlerCreate
  | NewBtm
  | NewAcl
  | SetRunning bool
  | HciOnResetComplete
  | HciOnShuttingDown
  | DeleteAcl "legacy_acl option"
  | DeleteBtm "shim_btm option"
  | HandlerClear
  | RegistryShutDown
  | ModuleStop module
  | DeleteHandler
  | ThreadStop
  | DeleteThread

text \<open>
  The fields of \<^verbatim>\<open>Stack\<close>. \<open>stack_manager\<close> is the registry: the started module
  instances in the order they were started. \<open>trace\<close> is the log.
\<close>

record stack =
  is_running :: bool
  stack_thread :: "thread option"
  stack_handler :: "handler option"
  stack_manager :: "module list"
  acl :: "legacy_acl option"
  btm :: "shim_btm option"
  trace :: "event list"

type_synonym 'a result = "(fatal \<times> event list) + 'a"

text \<open>
  Modelled from the spec: the class declaration (main/shim/stack.h) is not among the
  sources. The spec has the state Idle before the first Start; the slots of an object
  that never started hold nothing.
\<close>

definition initial_stack :: stack where
  "initial_stack =
     \<lparr>is_running = False, stack_thread = None, stack_handler = None,
      stack_manager = [], acl = None, btm = None, trace = []\<rparr>"

definition emit :: "event \<Rightarrow> stack \<Rightarrow> stack" where
  "emit e s = s\<lparr>trace := trace s @ [e]\<rparr>"

text \<open>Sequencing: an abort ends the run.\<close>

definition then_do :: "'a result \<Rightarrow> ('a \<Rightarrow> 'b result) \<Rightarrow> 'b result" where
  "then_do r k = (case r of Inl e \<Rightarrow> Inl e | Inr x \<Rightarrow> k x)"

text \<open>\<^verbatim>\<open>ASSERT(cond)\<close> and \<^verbatim>\<open>ASSERT_LOG(cond, ...)\<close>: evaluated, then fatal when false.\<close>

definition ASSERT :: "assertion \<Rightarrow> bool \<Rightarrow> stack \<Rightarrow> stack result" where
  "ASSERT a cond s =
     (let s = emit (Asserted a) s
      in if cond then Inr s else Inl (AssertionFailed a, trace s))"

subsection \<open>Module list, resolver and registry\<close>

text \<open>
  Modelled from the spec: \<^verbatim>\<open>ModuleList\<close> (gd/module.h) is not among the sources. The
  spec has the requested modules as a set of descriptors with unique identities, kept
  in registration order; adding an identity that is already there changes nothing.
\<close>

definition add :: "module \<Rightarrow> module list \<Rightarrow> module list" where
  "add m modules = (if m \<in> set modules then modules else modules @ [m])"

text \<open>
  Modelled from the spec: the Dependency Graph Resolver is not among the sources. The
  spec's algorithm is the repeated extraction of a module none of whose dependencies
  is still waiting, the first such in registration order; when modules are left and
  none can be extracted the dependencies are cyclic.
\<close>

function extract_ready ::
  "(module \<Rightarrow> module list) \<Rightarrow> module list \<Rightarrow> module list \<Rightarrow> fatal + module list" where
  "extract_ready deps pending order =
     (case List.find (\<lambda>m. list_all (\<lambda>d. d \<in> set order) (deps m)) pending of
        None \<Rightarrow> if pending = [] then Inr order else Inl CyclicDependency
      | Some m \<Rightarrow> extract_ready deps (remove1 m pending) (order @ [m]))"
  by pat_completeness auto
termination
  by (relation "measure (\<lambda>(deps, pending, order). length pending)")
     (auto simp: find_Some_iff length_remove1 in_set_conv_nth intro!: diff_less)

text \<open>
  Modelled from the spec: a descriptor that depends on an identity absent from the
  request is an unsatisfied dependency. Both errors come before any module is
  instantiated. The spec does not order the two checks; absence is checked first.
\<close>

definition resolve :: "(module \<Rightarrow> module list) \<Rightarrow> module list \<Rightarrow> fatal + module list" where
  "resolve deps requested =
     (if list_all (\<lambda>m. list_all (\<lambda>d. d \<in> set requested) (deps m)) requested
      then extract_ready deps requested []
      else Inl UnsatisfiedDependency)"

text \<open>
  Modelled from the spec: the Module Registry (gd/stack_manager) is not among the
  sources. \<open>start_all\<close> constructs and starts each module in the resolved order, a
  failing start hook being fatal; \<open>GetInstance\<close> is the typed lookup, not-found for
  an identity that was not started; \<open>ShutDown\<close> stops the instances in the reverse
  of the order they were started in.
\<close>

fun start_all :: "collaborators \<Rightarrow> module list \<Rightarrow> stack \<Rightarrow> stack result" where
  "start_all c [] s = Inr s"
| "start_all c (m # ms) s =
     (let s = emit (ModuleStart m) s
      in if onStart c m then start_all c ms (s\<lparr>stack_manager := stack_manager s @ [m]\<rparr>)
         else Inl (ModuleStartFailed m, trace s))"

definition StartUp :: "collaborators \<Rightarrow> module list \<Rightarrow> thread \<Rightarrow> stack \<Rightarrow> stack result" where
  "StartUp c modules th s =
     (let s = emit (RegistryStartUp modules) s
      in case resolve (dependencies c) modules of
           Inl e \<Rightarrow> Inl (e, trace s)
         | Inr order \<Rightarrow> start_all c order s)"

definition GetInstance :: "module list \<Rightarrow> module \<Rightarrow> module option" where
  "GetInstance registry m = (if m \<in> set registry then Some m else None)"

definition ShutDown :: "stack \<Rightarrow> stack" where
  "ShutDown s =
     (let s = emit RegistryShutDown s
      in s\<lparr>stack_manager := [],
           trace := trace s @ map ModuleStop (rev (stack_manager s))\<rparr>)"

subsection \<open>The lifecycle functions\<close>

text \<open>
  \<^verbatim>\<open>Stack::Start\<close> (lines 121-132): the assertion, the new thread, the registry's
  start-up on that thread, the new handler on that thread.
\<close>

definition gd_stack_thread :: thread where
  "gd_stack_thread = Thread ''gd_stack_thread'' NORMAL"

definition Start :: "collaborators \<Rightarrow> module list \<Rightarrow> stack \<Rightarrow> stack result" where
  "Start c modules s =
     then_do (ASSERT Stack_not_running (\<not> is_running s) s) (\<lambda>s.
     let th = gd_stack_thread;
         s = emit ThreadCreate (s\<lparr>stack_thread := Some th\<rparr>)
     in then_do (StartUp c modules th s) (\<lambda>s.
        Inr (emit HandlerCreate (s\<lparr>stack_handler := Some (Handler th)\<rparr>))))"

text \<open>\<^verbatim>\<open>Stack::StartIdleMode\<close> (lines 53-63).\<close>

definition StartIdleMode :: "collaborators \<Rightarrow> stack \<Rightarrow> stack result" where
  "StartIdleMode c s =
     then_do (ASSERT Stack_not_running (\<not> is_running s) s) (\<lambda>s.
     let modules = add StorageModule []
     in then_do (Start c modules s) (\<lambda>s.
        then_do (ASSERT (Has_instance StorageModule)
                   (GetInstance (stack_manager s) StorageModule \<noteq> None) s) (\<lambda>s.
        Inr (emit (SetRunning True) (s\<lparr>is_running := True\<rparr>)))))"

text \<open>The module list that \<^verbatim>\<open>StartEverything\<close> builds (lines 69-100).\<close>

definition StartEverything_modules :: "InitFlags \<Rightarrow> module list" where
  "StartEverything_modules f =
     (let modules = [];
          modules = (if GdHciEnabled f
                     then fold add [HciHal, HciLayer, StorageModule, Dumpsys] modules
                     else modules);
          modules = (if GdControllerEnabled f then add Controller modules else modules);
          modules = (if GdAclEnabled f then add AclManager modules else modules);
          modules = (if GdSecurityEnabled f then add SecurityModule modules else modules);
          modules = (if GdCoreEnabled f
                     then fold add
                            [AttModule, LeAdvertisingManager, LeScanningManager,
                             L2capClassicModule, L2capLeModule, ConnectabilityModule,
                             DiscoverabilityModule, InquiryModule, NameModule,
                             NameDbModule, PageModule, ScanModule, StorageModule, L2cap]
                            modules
                     else modules)
      in modules)"

text \<open>
  \<^verbatim>\<open>Stack::StartEverything\<close> (lines 65-119). \<^verbatim>\<open>hci_on_reset_complete\<close> is a call
  into main/shim/hci_layer, logged as one event.
\<close>

definition StartEverything :: "collaborators \<Rightarrow> InitFlags \<Rightarrow> stack \<Rightarrow> stack result" where
  "StartEverything c f s =
     then_do (ASSERT Stack_not_running (\<not> is_running s) s) (\<lambda>s.
     then_do (Start c (StartEverything_modules f) s) (\<lambda>s.
     then_do (ASSERT (Has_instance StorageModule)
                (GetInstance (stack_manager s) StorageModule \<noteq> None) s) (\<lambda>s.
     then_do (ASSERT (Has_instance Dumpsys)
                (GetInstance (stack_manager s) Dumpsys \<noteq> None) s) (\<lambda>s.
     then_do (if GdCoreEnabled f
              then then_do (ASSERT (Has_instance L2cap)
                              (GetInstance (stack_manager s) L2cap \<noteq> None) s) (\<lambda>s.
                   Inr (emit NewBtm
                          (s\<lparr>btm := Some (Btm (stack_handler s)
                                            (GetInstance (stack_manager s) InquiryModule))\<rparr>)))
              else Inr s) (\<lambda>s.
     let s = (if GdAclEnabled f
              then (if \<not> GdCoreEnabled f
                    then emit NewAcl (s\<lparr>acl := Some (Acl (stack_handler s))\<rparr>)
                    else s)
              else s);
         s = emit (SetRunning True) (s\<lparr>is_running := True\<rparr>);
         s = (if \<not> GdCoreEnabled f then emit HciOnResetComplete s else s)
     in Inr s)))))"

text \<open>
  \<^verbatim>\<open>Stack::Stop\<close> (lines 134-160). \<^verbatim>\<open>delete\<close> of a null pointer does nothing; the
  event records the pointer that was deleted. \<^verbatim>\<open>stack_handler_->Clear()\<close> and
  \<^verbatim>\<open>stack_thread_->Stop()\<close> dereference their pointers: on a null pointer that is
  undefined behaviour, which the model makes a fatal condition. No reachable state
  gets there (\<open>stack_inv\<close> below).
\<close>

definition Stop :: "InitFlags \<Rightarrow> stack \<Rightarrow> stack result" where
  "Stop f s =
     (let s = (if \<not> GdCoreEnabled f then emit HciOnShuttingDown s else s)
      in then_do (ASSERT Stack_running (is_running s) s) (\<lambda>s.
         let s = emit (SetRunning False) (s\<lparr>is_running := False\<rparr>);
             s = emit (DeleteAcl (acl s)) s;
             s = s\<lparr>acl := None\<rparr>;
             s = emit (DeleteBtm (btm s)) s;
             s = s\<lparr>btm := None\<rparr>
         in if stack_handler s = None then Inl (NullDereference, trace s)
            else
              let s = emit HandlerClear s;
                  s = ShutDown s;
                  s = emit DeleteHandler s;
                  s = s\<lparr>stack_handler := None\<rparr>
              in if stack_thread s = None then Inl (NullDereference, trace s)
                 else
                   let s = emit ThreadStop s;
                       s = emit DeleteThread s;
                       s = s\<lparr>stack_thread := None\<rparr>
                   in Inr s))"

subsection \<open>The accessors\<close>

text \<open>Lines 162-189. Each takes the lock, which a sequential model does not show.\<close>

definition IsRunning :: "stack \<Rightarrow> bool" where
  "IsRunning s = is_running s"

definition GetStackManager :: "stack \<Rightarrow> fatal + module list" where
  "GetStackManager s =
     (if is_running s then Inr (stack_manager s) else Inl (AssertionFailed Stack_running))"

definition GetAcl :: "stack \<Rightarrow> fatal + legacy_acl option" where
  "GetAcl s = (if is_running s then Inr (acl s) else Inl (AssertionFailed Stack_running))"

definition GetBtm :: "stack \<Rightarrow> fatal + shim_btm option" where
  "GetBtm s = (if is_running s then Inr (btm s) else Inl (AssertionFailed Stack_running))"

definition GetHandler :: "stack \<Rightarrow> fatal + handler option" where
  "GetHandler s =
     (if is_running s then Inr (stack_handler s) else Inl (AssertionFailed Stack_running))"

subsection \<open>Reachable states\<close>

text \<open>
  The states of the singleton: the initial one, and every state a lifecycle function
  returns with from a reachable one, whatever the flags are at that moment.
\<close>

inductive reachable :: "collaborators \<Rightarrow> stack \<Rightarrow> bool" for c :: collaborators where
  reachable_initial: "reachable c initial_stack"
| reachable_StartIdleMode:
    "reachable c s \<Longrightarrow> StartIdleMode c s = Inr s' \<Longrightarrow> reachable c s'"
| reachable_StartEverything:
    "reachable c s \<Longrightarrow> StartEverything c f s = Inr s' \<Longrightarrow> reachable c s'"
| reachable_Stop:
    "reachable c s \<Longrightarrow> Stop f s = Inr s' \<Longrightarrow> reachable c s'"

definition stack_inv :: "stack \<Rightarrow> bool" where
  "stack_inv s \<longleftrightarrow>
     (is_running s \<longrightarrow> stack_thread s \<noteq> None \<and> stack_handler s \<noteq> None)
     \<and> (\<not> is_running s \<longrightarrow> acl s = None \<and> btm s = None \<and> stack_manager s = [])
     \<and> (acl s = None \<or> btm s = None)"

subsection \<open>A concrete set of collaborators\<close>

text \<open>
  One possible declaration of dependencies, used to run the model: the transport layer
  on the HAL, the controller and the connection manager on the transport layer; every
  start hook succeeds.
\<close>

fun example_dependencies :: "module \<Rightarrow> module list" where
  "example_dependencies HciLayer = [HciHal]"
| "example_dependencies Controller = [HciLayer]"
| "example_dependencies AclManager = [HciLayer, Controller]"
| "example_dependencies m = []"

definition example_collaborators :: collaborators where
  "example_collaborators = \<lparr>dependencies = example_dependencies, onStart = (\<lambda>m. True)\<rparr>"

definition flags :: "bool \<Rightarrow> bool \<Rightarrow> bool \<Rightarrow> bool \<Rightarrow> bool \<Rightarrow> InitFlags" where
  "flags hci controller acl_on security core =
     \<lparr>GdHciEnabled = hci, GdControllerEnabled = controller, GdAclEnabled = acl_on,
      GdSecurityEnabled = security, GdCoreEnabled = core\<rparr>"

definition transport_only :: InitFlags where
  "transport_only = flags True False False False False"

definition acl_config :: InitFlags where
  "acl_config = flags True True True False False"

definition core_config :: InitFlags where
  "core_config = flags True True True True True"

definition core_without_transport :: InitFlags where
  "core_without_transport = flags False False False False True"

text \<open>The states these configurations lead to from the initial one.\<close>

definition running_transport :: stack where
  "running_transport =
     \<lparr>is_running = True,
      stack_thread = Some gd_stack_thread,
      stack_handler = Some (Handler gd_stack_thread),
      stack_manager = [HciHal, HciLayer, StorageModule, Dumpsys],
      acl = None, btm = None,
      trace =
        [Asserted Stack_not_running, Asserted Stack_not_running, ThreadCreate,
         RegistryStartUp [HciHal, HciLayer, StorageModule, Dumpsys],
         ModuleStart HciHal, ModuleStart HciLayer, ModuleStart StorageModule,
         ModuleStart Dumpsys, HandlerCreate, Asserted (Has_instance StorageModule),
         Asserted (Has_instance Dumpsys), SetRunning True, HciOnResetComplete]\<rparr>"

definition running_acl :: stack where
  "running_acl =
     \<lparr>is_running = True,
      stack_thread = Some gd_stack_thread,
      stack_handler = Some (Handler gd_stack_thread),
      stack_manager = [HciHal, HciLayer, StorageModule, Dumpsys, Controller, AclManager],
      acl = Some (Acl (Some (Handler gd_stack_thread))),
      btm = None,
      trace =
        [Asserted Stack_not_running, Asserted Stack_not_running, ThreadCreate,
         RegistryStartUp [HciHal, HciLayer, StorageModule, Dumpsys, Controller, AclManager],
         ModuleStart HciHal, ModuleStart HciLayer, ModuleStart StorageModule,
         ModuleStart Dumpsys, ModuleStart Controller, ModuleStart AclManager,
         HandlerCreate, Asserted (Has_instance StorageModule),
         Asserted (Has_instance Dumpsys), NewAcl, SetRunning True, HciOnResetComplete]\<rparr>"

definition stopped_acl :: stack where
  "stopped_acl =
     \<lparr>is_running = False, stack_thread = None, stack_handler = None,
      stack_manager = [], acl = None, btm = None,
      trace = trace running_acl @
        [HciOnShuttingDown, Asserted Stack_running, SetRunning False,
         DeleteAcl (Some (Acl (Some (Handler gd_stack_thread)))), DeleteBtm None,
         HandlerClear, RegistryShutDown,
         ModuleStop AclManager, ModuleStop Controller, ModuleStop Dumpsys,
         ModuleStop StorageModule, ModuleStop HciLayer, ModuleStop HciHal,
         DeleteHandler, ThreadStop, DeleteThread]\<rparr>"



definition running_idle :: stack where
  "running_idle =
     \<lparr>is_running = True,
      stack_thread = Some gd_stack_thread,
      stack_handler = Some (Handler gd_stack_thread),
      stack_manager = [StorageModule], acl = None, btm = None,
      trace =
        [Asserted Stack_not_running, Asserted Stack_not_running, ThreadCreate,
         RegistryStartUp [StorageModule], ModuleStart StorageModule, HandlerCreate,
         Asserted (Has_instance StorageModule), SetRunning True]\<rparr>"

definition core_only_order :: "module list" where
  "core_only_order =
     [AttModule, LeAdvertisingManager, LeScanningManager, L2capClassicModule,
      L2capLeModule, ConnectabilityModule, DiscoverabilityModule, InquiryModule,
      NameModule, NameDbModule, PageModule, ScanModule, StorageModule, L2cap]"

definition aborted_core_without_transport :: "event list" where
  "aborted_core_without_transport =
     [Asserted Stack_not_running, Asserted Stack_not_running, ThreadCreate,
      RegistryStartUp core_only_order]
     @ map ModuleStart core_only_order
     @ [HandlerCreate, Asserted (Has_instance StorageModule),
        Asserted (Has_instance Dumpsys)]"

section \<open>Properties\<close>

subsection \<open>Resolver and registry\<close>

declare extract_ready.simps [simp del]

lemma extract_ready_set:
  "extract_ready deps pending order = Inr r \<Longrightarrow> set r = set pending \<union> set order"
proof (induction deps pending order rule: extract_ready.induct)
  case (1 deps pending order)
  show ?case
  proof (cases "List.find (\<lambda>m. list_all (\<lambda>d. d \<in> set order) (deps m)) pending")
    case None
    with "1.prems" show ?thesis
      by (simp add: extract_ready.simps [of deps pending order] split: if_splits)
  next
    case (Some m)
    then have m: "m \<in> set pending"
      by (auto simp: find_Some_iff)
    from Some "1.prems" have "extract_ready deps (remove1 m pending) (order @ [m]) = Inr r"
      by (simp add: extract_ready.simps [of deps pending order])
    with "1.IH" Some have "set r = set (remove1 m pending) \<union> set (order @ [m])"
      by blast
    moreover from m have "insert m (set (remove1 m pending)) = set pending"
      by (induction pending) auto
    ultimately show ?thesis
      by auto
  qed
qed

lemma resolve_set: "resolve deps requested = Inr r \<Longrightarrow> set r = set requested"
  by (auto simp: resolve_def split: if_splits dest: extract_ready_set)

lemma start_all_Inr:
  "start_all c ms s = Inr s' \<Longrightarrow>
     s' = s\<lparr>stack_manager := stack_manager s @ ms, trace := trace s @ map ModuleStart ms\<rparr>"
proof (induction ms arbitrary: s)
  case Nil
  then show ?case by simp
next
  case (Cons m ms)
  define s1 where "s1 = (emit (ModuleStart m) s)\<lparr>stack_manager := stack_manager s @ [m]\<rparr>"
  from Cons.prems have "start_all c ms s1 = Inr s'"
    by (simp add: Let_def s1_def emit_def split: if_splits)
  from Cons.IH [OF this] show ?case
    by (simp add: s1_def emit_def)
qed




lemma StartUp_Inr:
  assumes "StartUp c modules th s = Inr s'"
  obtains order where "resolve (dependencies c) modules = Inr order"
    and "s' = s\<lparr>stack_manager := stack_manager s @ order,
                  trace := trace s @ RegistryStartUp modules # map ModuleStart order\<rparr>"
proof (cases "resolve (dependencies c) modules")
  case (Inl e)
  with assms show ?thesis
    by (simp add: StartUp_def Let_def)
next
  case (Inr order)
  with assms have "start_all c order (emit (RegistryStartUp modules) s) = Inr s'"
    by (simp add: StartUp_def Let_def)
  from start_all_Inr [OF this] have "s' = s\<lparr>stack_manager := stack_manager s @ order,
                  trace := trace s @ RegistryStartUp modules # map ModuleStart order\<rparr>"
    by (simp add: emit_def)
  with Inr that show ?thesis
    by blast
qed


lemma Start_Inr:
  assumes "Start c modules s = Inr s'"
  obtains order where "resolve (dependencies c) modules = Inr order"
    and "\<not> is_running s"
    and "s' = s\<lparr>stack_thread := Some gd_stack_thread,
                  stack_handler := Some (Handler gd_stack_thread),
                  stack_manager := stack_manager s @ order,
                  trace := trace s @ [Asserted Stack_not_running, ThreadCreate,
                                      RegistryStartUp modules]
                           @ map ModuleStart order @ [HandlerCreate]\<rparr>"
proof -
  define s1 where
    "s1 = emit ThreadCreate ((emit (Asserted Stack_not_running) s)\<lparr>stack_thread := Some gd_stack_thread\<rparr>)"
  from assms have idle: "\<not> is_running s"
    by (auto simp: Start_def then_do_def ASSERT_def Let_def split: if_splits)
  with assms obtain s2 where up: "StartUp c modules gd_stack_thread s1 = Inr s2"
    and s': "s' = emit HandlerCreate (s2\<lparr>stack_handler := Some (Handler gd_stack_thread)\<rparr>)"
    by (auto simp: Start_def then_do_def ASSERT_def Let_def s1_def
             split: sum.splits)
  from up obtain order where "resolve (dependencies c) modules = Inr order"
    and "s2 = s1\<lparr>stack_manager := stack_manager s1 @ order,
                  trace := trace s1 @ RegistryStartUp modules # map ModuleStart order\<rparr>"
    by (rule StartUp_Inr)
  with s' idle that show ?thesis
    by (simp add: s1_def emit_def)
qed



lemma StartEverything_Inr:
  assumes "StartEverything c f s = Inr s'"
  obtains order where "resolve (dependencies c) (StartEverything_modules f) = Inr order"
    and "\<not> is_running s"
    and "StorageModule \<in> set (stack_manager s @ order)"
    and "Dumpsys \<in> set (stack_manager s @ order)"
    and "GdCoreEnabled f \<Longrightarrow> L2cap \<in> set (stack_manager s @ order)"
    and "s' = s\<lparr>is_running := True,
                  stack_thread := Some gd_stack_thread,
                  stack_handler := Some (Handler gd_stack_thread),
                  stack_manager := stack_manager s @ order,
                  acl := (if GdAclEnabled f \<and> \<not> GdCoreEnabled f
                          then Some (Acl (Some (Handler gd_stack_thread))) else acl s),
                  btm := (if GdCoreEnabled f
                          then Some (Btm (Some (Handler gd_stack_thread))
                                         (GetInstance (stack_manager s @ order) InquiryModule))
                          else btm s),
                  trace := trace s
                    @ [Asserted Stack_not_running, Asserted Stack_not_running, ThreadCreate,
                       RegistryStartUp (StartEverything_modules f)]
                    @ map ModuleStart order
                    @ [HandlerCreate, Asserted (Has_instance StorageModule),
                       Asserted (Has_instance Dumpsys)]
                    @ (if GdCoreEnabled f then [Asserted (Has_instance L2cap), NewBtm] else [])
                    @ (if GdAclEnabled f \<and> \<not> GdCoreEnabled f then [NewAcl] else [])
                    @ [SetRunning True]
                    @ (if \<not> GdCoreEnabled f then [HciOnResetComplete] else [])\<rparr>"
proof -
  from assms have idle: "\<not> is_running s"
    by (auto simp: StartEverything_def then_do_def ASSERT_def Let_def split: if_splits)
  define s0 where "s0 = emit (Asserted Stack_not_running) s"
  from assms idle obtain s1 where start: "Start c (StartEverything_modules f) s0 = Inr s1"
    by (auto simp: StartEverything_def then_do_def ASSERT_def Let_def s0_def split: sum.splits)
  from start obtain order where
    order: "resolve (dependencies c) (StartEverything_modules f) = Inr order"
    and s1: "s1 = s0\<lparr>stack_thread := Some gd_stack_thread,
                  stack_handler := Some (Handler gd_stack_thread),
                  stack_manager := stack_manager s0 @ order,
                  trace := trace s0 @ [Asserted Stack_not_running, ThreadCreate,
                                      RegistryStartUp (StartEverything_modules f)]
                           @ map ModuleStart order @ [HandlerCreate]\<rparr>"
    by (rule Start_Inr)
  have reg: "stack_manager s1 = stack_manager s @ order"
    by (simp add: s1 s0_def emit_def)
  from assms idle start have rest:
    "then_do (ASSERT (Has_instance StorageModule)
                (GetInstance (stack_manager s1) StorageModule \<noteq> None) s1) (\<lambda>s.
     then_do (ASSERT (Has_instance Dumpsys)
                (GetInstance (stack_manager s) Dumpsys \<noteq> None) s) (\<lambda>s.
     then_do (if GdCoreEnabled f
              then then_do (ASSERT (Has_instance L2cap)
                              (GetInstance (stack_manager s) L2cap \<noteq> None) s) (\<lambda>s.
                   Inr (emit NewBtm
                          (s\<lparr>btm := Some (Btm (stack_handler s)
                                            (GetInstance (stack_manager s) InquiryModule))\<rparr>)))
              else Inr s) (\<lambda>s.
     let s = (if GdAclEnabled f
              then (if \<not> GdCoreEnabled f
                    then emit NewAcl (s\<lparr>acl := Some (Acl (stack_handler s))\<rparr>)
                    else s)
              else s);
         s = emit (SetRunning True) (s\<lparr>is_running := True\<rparr>);
         s = (if \<not> GdCoreEnabled f then emit HciOnResetComplete s else s)
     in Inr s))) = Inr s'"
    by (simp add: StartEverything_def then_do_def ASSERT_def Let_def s0_def)
  from rest have storage: "StorageModule \<in> set (stack_manager s @ order)"
    by (auto simp: then_do_def ASSERT_def Let_def GetInstance_def reg split: if_splits)
  from rest have dumpsys: "Dumpsys \<in> set (stack_manager s @ order)"
    by (auto simp: then_do_def ASSERT_def Let_def GetInstance_def reg emit_def
             split: if_splits)
  from rest have l2cap: "GdCoreEnabled f \<Longrightarrow> L2cap \<in> set (stack_manager s @ order)"
    by (auto simp: then_do_def ASSERT_def Let_def GetInstance_def reg emit_def
             split: if_splits)
  from rest storage dumpsys l2cap have "s' = s\<lparr>is_running := True,
                  stack_thread := Some gd_stack_thread,
                  stack_handler := Some (Handler gd_stack_thread),
                  stack_manager := stack_manager s @ order,
                  acl := (if GdAclEnabled f \<and> \<not> GdCoreEnabled f
                          then Some (Acl (Some (Handler gd_stack_thread))) else acl s),
                  btm := (if GdCoreEnabled f
                          then Some (Btm (Some (Handler gd_stack_thread))
                                         (GetInstance (stack_manager s @ order) InquiryModule))
                          else btm s),
                  trace := trace s
                    @ [Asserted Stack_not_running, Asserted Stack_not_running, ThreadCreate,
                       RegistryStartUp (StartEverything_modules f)]
                    @ map ModuleStart order
                    @ [HandlerCreate, Asserted (Has_instance StorageModule),
                       Asserted (Has_instance Dumpsys)]
                    @ (if GdCoreEnabled f then [Asserted (Has_instance L2cap), NewBtm] else [])
                    @ (if GdAclEnabled f \<and> \<not> GdCoreEnabled f then [NewAcl] else [])
                    @ [SetRunning True]
                    @ (if \<not> GdCoreEnabled f then [HciOnResetComplete] else [])\<rparr>"
    by (cases "GdCoreEnabled f"; cases "GdAclEnabled f")
       (auto simp: then_do_def ASSERT_def Let_def GetInstance_def s1 s0_def emit_def)
  with order idle storage dumpsys l2cap that show ?thesis
    by blast
qed

subsection \<open>The lifecycle functions, case by case\<close>

lemma Stop_running:
  assumes "is_running s" and "stack_handler s \<noteq> None" and "stack_thread s \<noteq> None"
  shows "Stop f s =
     Inr (s\<lparr>is_running := False, stack_thread := None, stack_handler := None,
            stack_manager := [], acl := None, btm := None,
            trace := trace s
              @ (if \<not> GdCoreEnabled f then [HciOnShuttingDown] else [])
              @ [Asserted Stack_running, SetRunning False, DeleteAcl (acl s),
                 DeleteBtm (btm s), HandlerClear, RegistryShutDown]
              @ map ModuleStop (rev (stack_manager s))
              @ [DeleteHandler, ThreadStop, DeleteThread]\<rparr>)"
  using assms
  by (auto simp: Stop_def then_do_def ASSERT_def ShutDown_def emit_def Let_def)

lemma Stop_Inr:
  assumes "Stop f s = Inr s'"
  shows "is_running s \<and> stack_handler s \<noteq> None \<and> stack_thread s \<noteq> None"
  using assms
  by (auto simp: Stop_def then_do_def ASSERT_def ShutDown_def emit_def Let_def
           split: if_splits)

lemma StartIdleMode_Inr:
  assumes "StartIdleMode c s = Inr s'"
  obtains order where "resolve (dependencies c) [StorageModule] = Inr order"
    and "\<not> is_running s"
    and "StorageModule \<in> set (stack_manager s @ order)"
    and "s' = s\<lparr>is_running := True,
                  stack_thread := Some gd_stack_thread,
                  stack_handler := Some (Handler gd_stack_thread),
                  stack_manager := stack_manager s @ order,
                  trace := trace s
                    @ [Asserted Stack_not_running, Asserted Stack_not_running, ThreadCreate,
                       RegistryStartUp [StorageModule]]
                    @ map ModuleStart order
                    @ [HandlerCreate, Asserted (Has_instance StorageModule),
                       SetRunning True]\<rparr>"
proof -
  from assms have idle: "\<not> is_running s"
    by (auto simp: StartIdleMode_def then_do_def ASSERT_def Let_def split: if_splits)
  define s0 where "s0 = emit (Asserted Stack_not_running) s"
  from assms idle obtain s1 where start: "Start c [StorageModule] s0 = Inr s1"
    by (auto simp: StartIdleMode_def then_do_def ASSERT_def Let_def s0_def add_def
             split: sum.splits)
  from start obtain order where
    order: "resolve (dependencies c) [StorageModule] = Inr order"
    and s1: "s1 = s0\<lparr>stack_thread := Some gd_stack_thread,
                  stack_handler := Some (Handler gd_stack_thread),
                  stack_manager := stack_manager s0 @ order,
                  trace := trace s0 @ [Asserted Stack_not_running, ThreadCreate,
                                      RegistryStartUp [StorageModule]]
                           @ map ModuleStart order @ [HandlerCreate]\<rparr>"
    by (rule Start_Inr)
  from assms idle start have rest:
    "then_do (ASSERT (Has_instance StorageModule)
                (GetInstance (stack_manager s1) StorageModule \<noteq> None) s1) (\<lambda>s.
        Inr (emit (SetRunning True) (s\<lparr>is_running := True\<rparr>))) = Inr s'"
    by (simp add: StartIdleMode_def then_do_def ASSERT_def Let_def s0_def add_def)
  from rest have storage: "StorageModule \<in> set (stack_manager s @ order)"
    by (auto simp: then_do_def ASSERT_def Let_def GetInstance_def s1 s0_def emit_def
             split: if_splits)
  from rest storage have "s' = s\<lparr>is_running := True,
                  stack_thread := Some gd_stack_thread,
                  stack_handler := Some (Handler gd_stack_thread),
                  stack_manager := stack_manager s @ order,
                  trace := trace s
                    @ [Asserted Stack_not_running, Asserted Stack_not_running, ThreadCreate,
                       RegistryStartUp [StorageModule]]
                    @ map ModuleStart order
                    @ [HandlerCreate, Asserted (Has_instance StorageModule),
                       SetRunning True]\<rparr>"
    by (auto simp: then_do_def ASSERT_def Let_def GetInstance_def s1 s0_def emit_def)
  with order idle storage that show ?thesis
    by blast
qed


lemma reachable_inv: "reachable c s \<Longrightarrow> stack_inv s"
proof (induction rule: reachable.induct)
  case reachable_initial
  show ?case
    by (simp add: stack_inv_def initial_stack_def)
next
  case (reachable_StartIdleMode s s')
  from reachable_StartIdleMode.hyps(2) reachable_StartIdleMode.IH show ?case
    by (elim StartIdleMode_Inr) (simp add: stack_inv_def)
next
  case (reachable_StartEverything s f s')
  from reachable_StartEverything.hyps(2) reachable_StartEverything.IH show ?case
    by (elim StartEverything_Inr) (simp add: stack_inv_def)
next
  case (reachable_Stop s f s')
  from Stop_Inr [OF reachable_Stop.hyps(2)] Stop_running [of s f]
    reachable_Stop.hyps(2) show ?case
    by (auto simp: stack_inv_def)
qed

lemma set_add: "set (add m modules) = insert m (set modules)"
  by (auto simp: add_def)

lemma set_fold_add: "set (fold add ms modules) = set ms \<union> set modules"
  by (induction ms arbitrary: modules) (auto simp: set_add)

lemma Dumpsys_requested: "Dumpsys \<in> set (StartEverything_modules f) \<longleftrightarrow> GdHciEnabled f"
  by (simp add: StartEverything_modules_def Let_def set_add set_fold_add del: fold_simps)

lemma transport_only_requested:
  "StartEverything_modules transport_only = [HciHal, HciLayer, StorageModule, Dumpsys]"
  by (simp add: StartEverything_modules_def add_def flags_def transport_only_def)

subsection \<open>When the start functions return\<close>




subsection \<open>Consequences of the invariant\<close>

lemma idle_registry_empty: "reachable c s \<Longrightarrow> \<not> is_running s \<Longrightarrow> stack_manager s = []"
  by (drule reachable_inv) (simp add: stack_inv_def)

lemma idle_bridges_null:
  "reachable c s \<Longrightarrow> \<not> is_running s \<Longrightarrow> acl s = None \<and> btm s = None"
  by (drule reachable_inv) (simp add: stack_inv_def)


lemma resolve_single: "resolve deps [m] = Inr order \<Longrightarrow> order = [m]"
  by (auto simp: resolve_def extract_ready.simps split: if_splits)

subsection \<open>Runs of the model\<close>

lemma add_Nil: "add m [] = [m]"
  by (simp add: add_def)

lemma add_Cons: "add m (x # xs) = (if m = x then x # xs else x # add m xs)"
  by (simp add: add_def)

lemmas run_defs =
  StartEverything_def StartEverything_modules_def StartIdleMode_def Start_def Stop_def
  StartUp_def ShutDown_def resolve_def extract_ready.simps GetInstance_def add_Nil add_Cons
  then_do_def ASSERT_def emit_def Let_def initial_stack_def example_collaborators_def
  flags_def transport_only_def acl_config_def core_config_def core_without_transport_def




lemma run_transport:
  "StartEverything example_collaborators transport_only initial_stack = Inr running_transport"
  by (simp add: run_defs running_transport_def)

lemma run_acl:
  "StartEverything example_collaborators acl_config initial_stack = Inr running_acl"
  by (simp add: run_defs running_acl_def)

lemma stop_acl: "Stop acl_config running_acl = Inr stopped_acl"
  by (simp add: run_defs running_acl_def stopped_acl_def)


lemma run_idle: "StartIdleMode example_collaborators initial_stack = Inr running_idle"
  by (simp add: run_defs running_idle_def)

lemma run_core_without_transport:
  "StartEverything example_collaborators core_without_transport initial_stack
     = Inl (AssertionFailed (Has_instance Dumpsys), aborted_core_without_transport)"
  by (simp add: run_defs aborted_core_without_transport_def core_only_order_def)


lemma reachable_running_acl: "reachable example_collaborators running_acl"
  using reachable_initial run_acl by (rule reachable_StartEverything)

section \<open>The claims\<close>

subsection \<open>The state machine\<close>

text \<open>
  C3. Misuse of the Start/Stop state machine is fatal: \<^verbatim>\<open>StartEverything\<close> and
  \<^verbatim>\<open>StartIdleMode\<close> called on a running stack fail their first assertion, and \<^verbatim>\<open>Stop\<close>
  called on a stack that is not running fails its assertion (after the call of
  \<^verbatim>\<open>hci_on_shutting_down\<close> when the core flag is off). The functions return nothing, so
  the only outcomes are the abort and the new state: there is no error value.
\<close>

theorem lifecycle_misuse_is_fatal:
  "(is_running s \<longrightarrow>
      StartEverything c f s
        = Inl (AssertionFailed Stack_not_running, trace s @ [Asserted Stack_not_running])
      \<and> StartIdleMode c s
        = Inl (AssertionFailed Stack_not_running, trace s @ [Asserted Stack_not_running]))
   \<and> (\<not> is_running t \<longrightarrow>
      Stop f t
        = Inl (AssertionFailed Stack_running,
               trace t @ (if \<not> GdCoreEnabled f then [HciOnShuttingDown] else [])
               @ [Asserted Stack_running]))"
  by (simp add: StartEverything_def StartIdleMode_def Stop_def then_do_def ASSERT_def
                emit_def Let_def)

theorem lifecycle_misuse_is_fatal_witness:
  "is_running running_acl
   \<and> StartEverything example_collaborators core_config running_acl
       = Inl (AssertionFailed Stack_not_running,
              trace running_acl @ [Asserted Stack_not_running])
   \<and> StartIdleMode example_collaborators running_acl
       = Inl (AssertionFailed Stack_not_running,
              trace running_acl @ [Asserted Stack_not_running])
   \<and> \<not> is_running initial_stack
   \<and> Stop core_config initial_stack
       = Inl (AssertionFailed Stack_running, [Asserted Stack_running])"
proof -
  have running: "is_running running_acl"
    by (simp add: running_acl_def)
  have idle: "\<not> is_running initial_stack"
    by (simp add: initial_stack_def)
  have core: "GdCoreEnabled core_config"
    by (simp add: core_config_def flags_def)
  have empty: "trace initial_stack = []"
    by (simp add: initial_stack_def)
  from running idle core empty
    lifecycle_misuse_is_fatal
      [of running_acl example_collaborators core_config initial_stack]
  show ?thesis
    by simp
qed

text \<open>
  C4. Each accessor of running state (\<^verbatim>\<open>GetStackManager\<close>, \<^verbatim>\<open>GetAcl\<close>, \<^verbatim>\<open>GetBtm\<close>,
  \<^verbatim>\<open>GetHandler\<close>) fails its assertion whenever the stack is not running.
\<close>

theorem accessors_fatal_when_not_running:
  "\<not> is_running s \<Longrightarrow>
     GetStackManager s = Inl (AssertionFailed Stack_running)
     \<and> GetAcl s = Inl (AssertionFailed Stack_running)
     \<and> GetBtm s = Inl (AssertionFailed Stack_running)
     \<and> GetHandler s = Inl (AssertionFailed Stack_running)"
  by (simp add: GetStackManager_def GetAcl_def GetBtm_def GetHandler_def)

theorem accessors_fatal_when_not_running_witness:
  "\<not> is_running initial_stack
   \<and> GetStackManager initial_stack = Inl (AssertionFailed Stack_running)
   \<and> GetAcl initial_stack = Inl (AssertionFailed Stack_running)
   \<and> GetBtm initial_stack = Inl (AssertionFailed Stack_running)
   \<and> GetHandler initial_stack = Inl (AssertionFailed Stack_running)"
proof -
  have idle: "\<not> is_running initial_stack"
    by (simp add: initial_stack_def)
  from idle accessors_fatal_when_not_running [OF idle] show ?thesis
    by simp
qed

text \<open>
  C5. \<^verbatim>\<open>IsRunning\<close> reads the flag \<open>is_running\<close>: false in the initial state, true in
  every state a start function returns with, false in every state \<^verbatim>\<open>Stop\<close> returns
  with. (The lock it takes is not part of a sequential model.)
\<close>

theorem IsRunning_follows_lifecycle:
  "IsRunning s = is_running s
   \<and> \<not> IsRunning initial_stack
   \<and> (StartIdleMode c s1 = Inr s1' \<longrightarrow> IsRunning s1')
   \<and> (StartEverything c f s2 = Inr s2' \<longrightarrow> IsRunning s2')
   \<and> (Stop f s3 = Inr s3' \<longrightarrow> \<not> IsRunning s3')"
proof -
  have "IsRunning s1'" if "StartIdleMode c s1 = Inr s1'"
    using that by (elim StartIdleMode_Inr) (simp add: IsRunning_def)
  moreover have "IsRunning s2'" if "StartEverything c f s2 = Inr s2'"
    using that by (elim StartEverything_Inr) (simp add: IsRunning_def)
  moreover have "\<not> IsRunning s3'" if "Stop f s3 = Inr s3'"
    using Stop_Inr [OF that] Stop_running [of s3 f] that by (auto simp: IsRunning_def)
  ultimately show ?thesis
    by (simp add: IsRunning_def initial_stack_def)
qed

theorem IsRunning_follows_lifecycle_witness:
  "\<not> IsRunning initial_stack
   \<and> StartIdleMode example_collaborators initial_stack = Inr running_idle
   \<and> IsRunning running_idle
   \<and> StartEverything example_collaborators acl_config initial_stack = Inr running_acl
   \<and> IsRunning running_acl
   \<and> Stop acl_config running_acl = Inr stopped_acl
   \<and> \<not> IsRunning stopped_acl"
  using run_idle run_acl stop_acl
    IsRunning_follows_lifecycle
      [of initial_stack example_collaborators initial_stack running_idle acl_config
          initial_stack running_acl running_acl stopped_acl]
  by blast


subsection \<open>The order of the steps\<close>

text \<open>
  C1, as stated, has \<^verbatim>\<open>Stop\<close> mark the state Idle as its final step. On the stack
  started with the transport, controller and connection flags, \<^verbatim>\<open>Stop\<close> writes
  \<open>is_running\<close> third, before the bridges are deleted, and its last step is the
  deletion of the thread.
\<close>

theorem Stop_marks_idle_first_counterexample:
  "StartEverything example_collaborators acl_config initial_stack = Inr running_acl
   \<and> is_running running_acl
   \<and> Stop acl_config running_acl = Inr stopped_acl
   \<and> drop (length (trace running_acl)) (trace stopped_acl)
       = [HciOnShuttingDown, Asserted Stack_running, SetRunning False,
          DeleteAcl (Some (Acl (Some (Handler gd_stack_thread)))), DeleteBtm None,
          HandlerClear, RegistryShutDown,
          ModuleStop AclManager, ModuleStop Controller, ModuleStop Dumpsys,
          ModuleStop StorageModule, ModuleStop HciLayer, ModuleStop HciHal,
          DeleteHandler, ThreadStop, DeleteThread]
   \<and> last (trace stopped_acl) \<noteq> SetRunning False"
  using run_acl stop_acl by (simp add: running_acl_def stopped_acl_def)

text \<open>
  C1, amended. On a running stack \<^verbatim>\<open>Stop\<close> returns, and its steps are, in this order:
  \<^verbatim>\<open>hci_on_shutting_down\<close> when the core flag is off, the assertion that the stack runs,
  the state marked Idle, the connection bridge deleted, the discovery bridge deleted,
  the handler's queue cleared, the registry shut down in the reverse of the start
  order, the handler deleted, the thread stopped and deleted.
\<close>

theorem Stop_teardown_order:
  assumes "reachable c s" and "is_running s"
  shows "Stop f s =
     Inr (s\<lparr>is_running := False, stack_thread := None, stack_handler := None,
            stack_manager := [], acl := None, btm := None,
            trace := trace s
              @ (if \<not> GdCoreEnabled f then [HciOnShuttingDown] else [])
              @ [Asserted Stack_running, SetRunning False, DeleteAcl (acl s),
                 DeleteBtm (btm s), HandlerClear, RegistryShutDown]
              @ map ModuleStop (rev (stack_manager s))
              @ [DeleteHandler, ThreadStop, DeleteThread]\<rparr>)"
proof -
  from assms reachable_inv [of c s]
  have "stack_handler s \<noteq> None" and "stack_thread s \<noteq> None"
    by (simp_all add: stack_inv_def)
  with assms(2) show ?thesis
    by (rule Stop_running)
qed

theorem Stop_teardown_order_witness:
  "reachable example_collaborators running_acl
   \<and> is_running running_acl
   \<and> Stop acl_config running_acl =
     Inr (running_acl\<lparr>is_running := False, stack_thread := None, stack_handler := None,
            stack_manager := [], acl := None, btm := None,
            trace := trace running_acl
              @ [HciOnShuttingDown]
              @ [Asserted Stack_running, SetRunning False,
                 DeleteAcl (Some (Acl (Some (Handler gd_stack_thread)))),
                 DeleteBtm None, HandlerClear, RegistryShutDown]
              @ [ModuleStop AclManager, ModuleStop Controller, ModuleStop Dumpsys,
                 ModuleStop StorageModule, ModuleStop HciLayer, ModuleStop HciHal]
              @ [DeleteHandler, ThreadStop, DeleteThread]\<rparr>)"
proof -
  have running: "is_running running_acl"
    by (simp add: running_acl_def)
  have core: "\<not> GdCoreEnabled acl_config"
    by (simp add: acl_config_def flags_def)
  have fields: "acl running_acl = Some (Acl (Some (Handler gd_stack_thread)))"
    "btm running_acl = None"
    "stack_manager running_acl
       = [HciHal, HciLayer, StorageModule, Dumpsys, Controller, AclManager]"
    by (simp_all add: running_acl_def)
  from Stop_teardown_order [OF reachable_running_acl running, of acl_config]
    reachable_running_acl running core fields
  show ?thesis
    by simp
qed



subsection \<open>The module set\<close>

text \<open>
  C6. After \<^verbatim>\<open>StartEverything\<close> with the transport flag on and every other flag off,
  the started modules are the HAL, the transport layer, the storage module and
  dumpsys: the registry is accessible, the lookup of the storage module succeeds and
  the lookup of the connection manager finds nothing.
\<close>

theorem transport_only_module_set:
  assumes "reachable c s" and "StartEverything c transport_only s = Inr s'"
  shows "StartEverything_modules transport_only = [HciHal, HciLayer, StorageModule, Dumpsys]
     \<and> set (stack_manager s') = {HciHal, HciLayer, StorageModule, Dumpsys}
     \<and> GetStackManager s' = Inr (stack_manager s')
     \<and> GetInstance (stack_manager s') StorageModule = Some StorageModule
     \<and> GetInstance (stack_manager s') AclManager = None"
proof -
  from assms(2) obtain order where
    order: "resolve (dependencies c) (StartEverything_modules transport_only) = Inr order"
    and idle: "\<not> is_running s"
    and s': "stack_manager s' = stack_manager s @ order" "is_running s'"
    by (elim StartEverything_Inr) simp
  from assms(1) idle have "stack_manager s = []"
    by (rule idle_registry_empty)
  with s' resolve_set [OF order] transport_only_requested
  have "set (stack_manager s') = {HciHal, HciLayer, StorageModule, Dumpsys}"
    by simp
  with s'(2) transport_only_requested show ?thesis
    by (simp add: GetStackManager_def GetInstance_def)
qed

theorem transport_only_module_set_witness:
  "reachable example_collaborators initial_stack
   \<and> StartEverything example_collaborators transport_only initial_stack
       = Inr running_transport
   \<and> set (stack_manager running_transport) = {HciHal, HciLayer, StorageModule, Dumpsys}
   \<and> GetStackManager running_transport = Inr (stack_manager running_transport)
   \<and> GetInstance (stack_manager running_transport) StorageModule = Some StorageModule
   \<and> GetInstance (stack_manager running_transport) AclManager = None"
  using transport_only_module_set [OF reachable_initial run_transport] reachable_initial
    run_transport
  by simp

text \<open>
  C7. \<^verbatim>\<open>StartIdleMode\<close> fails its first assertion on a running stack. When it returns
  it has requested the storage module alone, started it, asserted after the start-up
  that the registry has it, and marked the state Running; the registry then holds
  exactly the storage module. It does return on an idle stack when the storage module
  has no dependency and its start hook succeeds.
\<close>

theorem StartIdleMode_storage_only:
  "(is_running s \<longrightarrow>
      StartIdleMode c s
        = Inl (AssertionFailed Stack_not_running, trace s @ [Asserted Stack_not_running]))
   \<and> (reachable c t \<and> StartIdleMode c t = Inr t' \<longrightarrow>
        stack_manager t' = [StorageModule]
        \<and> is_running t'
        \<and> trace t' = trace t
             @ [Asserted Stack_not_running, Asserted Stack_not_running, ThreadCreate,
                RegistryStartUp [StorageModule], ModuleStart StorageModule, HandlerCreate,
                Asserted (Has_instance StorageModule), SetRunning True])
   \<and> (\<not> is_running u \<and> dependencies c StorageModule = [] \<and> onStart c StorageModule \<longrightarrow>
        (\<exists>u'. StartIdleMode c u = Inr u'))"
proof -
  have fatal: "StartIdleMode c s
        = Inl (AssertionFailed Stack_not_running, trace s @ [Asserted Stack_not_running])"
    if "is_running s"
    using that by (simp add: StartIdleMode_def then_do_def ASSERT_def emit_def Let_def)
  have started: "stack_manager t' = [StorageModule]
        \<and> is_running t'
        \<and> trace t' = trace t
             @ [Asserted Stack_not_running, Asserted Stack_not_running, ThreadCreate,
                RegistryStartUp [StorageModule], ModuleStart StorageModule, HandlerCreate,
                Asserted (Has_instance StorageModule), SetRunning True]"
    if reach: "reachable c t" and run: "StartIdleMode c t = Inr t'"
  proof -
    from run obtain order where
      order: "resolve (dependencies c) [StorageModule] = Inr order"
      and idle: "\<not> is_running t"
      and t': "t' = t\<lparr>is_running := True,
                  stack_thread := Some gd_stack_thread,
                  stack_handler := Some (Handler gd_stack_thread),
                  stack_manager := stack_manager t @ order,
                  trace := trace t
                    @ [Asserted Stack_not_running, Asserted Stack_not_running, ThreadCreate,
                       RegistryStartUp [StorageModule]]
                    @ map ModuleStart order
                    @ [HandlerCreate, Asserted (Has_instance StorageModule),
                       SetRunning True]\<rparr>"
      by (elim StartIdleMode_Inr)
    from reach idle have "stack_manager t = []"
      by (rule idle_registry_empty)
    with t' resolve_single [OF order] show ?thesis
      by simp
  qed
  have total: "\<exists>u'. StartIdleMode c u = Inr u'"
    if "\<not> is_running u \<and> dependencies c StorageModule = [] \<and> onStart c StorageModule"
    using that
    by (simp add: StartIdleMode_def Start_def StartUp_def resolve_def extract_ready.simps
                  GetInstance_def add_def then_do_def ASSERT_def emit_def Let_def)
  from fatal started total show ?thesis
    by blast
qed

theorem StartIdleMode_storage_only_witness:
  "is_running running_acl
   \<and> StartIdleMode example_collaborators running_acl
       = Inl (AssertionFailed Stack_not_running,
              trace running_acl @ [Asserted Stack_not_running])
   \<and> reachable example_collaborators initial_stack
   \<and> StartIdleMode example_collaborators initial_stack = Inr running_idle
   \<and> stack_manager running_idle = [StorageModule]
   \<and> is_running running_idle
   \<and> trace running_idle
       = [Asserted Stack_not_running, Asserted Stack_not_running, ThreadCreate,
          RegistryStartUp [StorageModule], ModuleStart StorageModule, HandlerCreate,
          Asserted (Has_instance StorageModule), SetRunning True]
   \<and> \<not> is_running initial_stack
   \<and> dependencies example_collaborators StorageModule = []
   \<and> onStart example_collaborators StorageModule
   \<and> (\<exists>u'. StartIdleMode example_collaborators initial_stack = Inr u')"
proof -
  have running: "is_running running_acl"
    by (simp add: running_acl_def)
  have idle: "\<not> is_running initial_stack" "trace initial_stack = []"
    by (simp_all add: initial_stack_def)
  have storage: "dependencies example_collaborators StorageModule = []"
    "onStart example_collaborators StorageModule"
    by (simp_all add: example_collaborators_def)
  from StartIdleMode_storage_only
      [where c = example_collaborators and s = running_acl and t = initial_stack
         and t' = running_idle and u = initial_stack]
    running idle storage reachable_initial [of example_collaborators] run_idle
  show ?thesis
    by simp
qed

text \<open>
  C8. With the transport flag off, whatever the other flags are, the module list has no
  dumpsys module and \<^verbatim>\<open>StartEverything\<close> aborts.
\<close>

theorem StartEverything_without_transport_aborts:
  assumes "reachable c s" and "\<not> GdHciEnabled f"
  shows "Dumpsys \<notin> set (StartEverything_modules f)
     \<and> (\<exists>e tr. StartEverything c f s = Inl (e, tr))"
proof -
  from assms(2) have absent: "Dumpsys \<notin> set (StartEverything_modules f)"
    by (simp add: Dumpsys_requested)
  have "\<exists>e tr. StartEverything c f s = Inl (e, tr)"
  proof (cases "StartEverything c f s")
    case (Inl a)
    then show ?thesis
      by (cases a) simp
  next
    case (Inr s')
    then obtain order where
      order: "resolve (dependencies c) (StartEverything_modules f) = Inr order"
      and idle: "\<not> is_running s"
      and dumpsys: "Dumpsys \<in> set (stack_manager s @ order)"
      by (elim StartEverything_Inr)
    from assms(1) idle have "stack_manager s = []"
      by (rule idle_registry_empty)
    with dumpsys resolve_set [OF order] absent show ?thesis
      by simp
  qed
  with absent show ?thesis
    by simp
qed

theorem StartEverything_without_transport_aborts_witness:
  "reachable example_collaborators initial_stack
   \<and> \<not> GdHciEnabled core_without_transport
   \<and> Dumpsys \<notin> set (StartEverything_modules core_without_transport)
   \<and> (\<exists>e tr. StartEverything example_collaborators core_without_transport initial_stack
                 = Inl (e, tr))
   \<and> StartEverything example_collaborators core_without_transport initial_stack
       = Inl (AssertionFailed (Has_instance Dumpsys), aborted_core_without_transport)"
proof -
  have off: "\<not> GdHciEnabled core_without_transport"
    by (simp add: core_without_transport_def flags_def)
  from StartEverything_without_transport_aborts [OF reachable_initial off]
    reachable_initial off run_core_without_transport
  show ?thesis
    by simp
qed


subsection \<open>The legacy bridges\<close>




text \<open>
  C10. On a running stack \<^verbatim>\<open>GetBtm\<close> and \<^verbatim>\<open>GetAcl\<close> do not fail: they return the
  slot as it is. On the stack that \<^verbatim>\<open>StartEverything\<close> returns the slot of the
  discovery bridge is null exactly when the core flag is off, and the slot of the
  connection bridge is null unless the connection flag is on and the core flag is off;
  on the stack that \<^verbatim>\<open>StartIdleMode\<close> returns both are null.
\<close>

theorem bridge_accessors_may_return_null:
  assumes "reachable c s"
  shows "(is_running s \<longrightarrow> GetBtm s = Inr (btm s) \<and> GetAcl s = Inr (acl s))
     \<and> (StartEverything c f s = Inr s' \<longrightarrow>
          GetBtm s' = Inr (btm s') \<and> GetAcl s' = Inr (acl s')
          \<and> (btm s' = None \<longleftrightarrow> \<not> GdCoreEnabled f)
          \<and> (acl s' = None \<longleftrightarrow> \<not> (GdAclEnabled f \<and> \<not> GdCoreEnabled f)))
     \<and> (StartIdleMode c s = Inr s'' \<longrightarrow> GetBtm s'' = Inr None \<and> GetAcl s'' = Inr None)"
proof -
  have full: "GetBtm s' = Inr (btm s') \<and> GetAcl s' = Inr (acl s')
          \<and> (btm s' = None \<longleftrightarrow> \<not> GdCoreEnabled f)
          \<and> (acl s' = None \<longleftrightarrow> \<not> (GdAclEnabled f \<and> \<not> GdCoreEnabled f))"
    if run: "StartEverything c f s = Inr s'"
  proof -
    from run have "\<not> is_running s"
      by (elim StartEverything_Inr)
    with assms have "acl s = None \<and> btm s = None"
      by (rule idle_bridges_null)
    with run show ?thesis
      by (elim StartEverything_Inr) (simp add: GetBtm_def GetAcl_def)
  qed
  have idle_mode: "GetBtm s'' = Inr None \<and> GetAcl s'' = Inr None"
    if run: "StartIdleMode c s = Inr s''"
  proof -
    from run have "\<not> is_running s"
      by (elim StartIdleMode_Inr)
    with assms have "acl s = None \<and> btm s = None"
      by (rule idle_bridges_null)
    with run show ?thesis
      by (elim StartIdleMode_Inr) (simp add: GetBtm_def GetAcl_def)
  qed
  from full idle_mode show ?thesis
    by (auto simp: GetBtm_def GetAcl_def)
qed

theorem bridge_accessors_may_return_null_witness:
  "reachable example_collaborators running_acl
   \<and> is_running running_acl
   \<and> GetBtm running_acl = Inr None
   \<and> GetAcl running_acl = Inr (Some (Acl (Some (Handler gd_stack_thread))))
   \<and> reachable example_collaborators initial_stack
   \<and> StartEverything example_collaborators transport_only initial_stack
       = Inr running_transport
   \<and> GetBtm running_transport = Inr None
   \<and> GetAcl running_transport = Inr None
   \<and> StartIdleMode example_collaborators initial_stack = Inr running_idle
   \<and> GetBtm running_idle = Inr None
   \<and> GetAcl running_idle = Inr None"
proof -
  have off: "\<not> GdCoreEnabled transport_only" "\<not> GdAclEnabled transport_only"
    by (simp_all add: transport_only_def flags_def)
  have running: "is_running running_acl" "btm running_acl = None"
    "acl running_acl = Some (Acl (Some (Handler gd_stack_thread)))"
    by (simp_all add: running_acl_def)
  have none: "btm running_transport = None" "acl running_transport = None"
    by (simp_all add: running_transport_def)
  from bridge_accessors_may_return_null [OF reachable_running_acl]
    bridge_accessors_may_return_null
      [OF reachable_initial, where f = transport_only and s' = running_transport
         and s'' = running_idle]
    reachable_running_acl reachable_initial [of example_collaborators]
    run_transport run_idle off running none
  show ?thesis
    by simp
qed

end
